theory Spec2Isabelle
  imports Complex_Main "HOL-Library.Word" "HOL-Library.AList"
begin

section \<open>Patient management canister: data model\<close>

text \<open>
  The canister of \<^verbatim>\<open>src/index.ts\<close> keeps one map from patient id to patient and
  exports twelve operations on it. The embedding follows the source function by function.
  A string is the list of the bytes of its UTF-8 encoding (text reaches the canister as
  Candid \<^verbatim>\<open>text\<close>, which is UTF-8); for ASCII text a byte is a character. A
  \<^verbatim>\<open>nat64\<close> is a 64-bit word; a
  \<^verbatim>\<open>Result<T, string>\<close> is the datatype \<open>Result\<close> with the error message as a string.
\<close>

text \<open>
  A JavaScript \<^verbatim>\<open>number\<close> (the Candid \<^verbatim>\<open>float64\<close> of the field \<^verbatim>\<open>age\<close>). The code
  never computes with it; it only tests it for truthiness (\<^verbatim>\<open>!payload.age\<close>) and copies it.
  The values that are falsy are \<open>0\<close>, \<open>-0\<close> and \<open>NaN\<close>.
\<close>

datatype number = Finite rat | NegZero | NaN | PosInfinity | NegInfinity

fun truthy_number :: "number \<Rightarrow> bool" where
  "truthy_number (Finite q) = (q \<noteq> 0)"
| "truthy_number NegZero = False"
| "truthy_number NaN = False"
| "truthy_number PosInfinity = True"
| "truthy_number NegInfinity = True"

text \<open>Truthiness of a JavaScript string: only the empty string is falsy.\<close>

definition truthy_string :: "string \<Rightarrow> bool" where
  "truthy_string s = (s \<noteq> [])"

text \<open>
  An \<^verbatim>\<open>Opt<T>\<close> is one of the objects \<^verbatim>\<open>{ Some: v }\<close> and \<^verbatim>\<open>{ None: null }\<close>: the source
  builds it with \<^verbatim>\<open>Opt.Some(..)\<close> and \<^verbatim>\<open>Opt.None\<close> and takes it apart with \<^verbatim>\<open>match\<close>, which
  loops over the keys of the object (\<^verbatim>\<open>variant.ts\<close>). It is modelled as \<open>'a option\<close>.
  As a JavaScript object it is truthy whichever case it is.
\<close>

definition truthy_Opt :: "'a option \<Rightarrow> bool" where
  "truthy_Opt v = True"

record MedicalRecord =
  record_id :: string
  patientId :: string
  diagnosis :: string
  treatment :: string
  date :: "64 word"

record Patient =
  patient_id :: string
  name :: string
  age :: number
  gender :: string
  admittedAt :: "64 word option"
  dischargedAt :: "64 word option"
  isAdmitted :: bool
  medicalRecords :: "MedicalRecord list"

record PatientPayload =
  payload_name :: string
  payload_age :: number
  payload_gender :: string
  payload_medicalRecords :: "MedicalRecord list"

datatype 'a Result = Ok 'a | Err string

section \<open>The record store\<close>

text \<open>
  Modelled from the spec: the record store \<^verbatim>\<open>patientStorage\<close>, a \<^verbatim>\<open>StableBTreeMap\<close>
  of the azle library, whose code is not part of the sources. The spec (section 4.1) gives
  its contract: \<^verbatim>\<open>insert\<close> inserts or overwrites the value at a key and always succeeds,
  \<^verbatim>\<open>get\<close> returns the value at a key or absent, \<^verbatim>\<open>remove\<close> deletes the key if present and
  returns the removed value or absent, \<^verbatim>\<open>values\<close> produces all stored values; capacity is
  unbounded. The store is an association list; a key that is overwritten keeps its place and a
  new key goes to the end. The order in which \<^verbatim>\<open>values\<close> enumerates is not fixed by the
  spec, and no statement below depends on it.
\<close>

type_synonym store = "(string \<times> Patient) list"

definition store_get :: "store \<Rightarrow> string \<Rightarrow> Patient option" where
  "store_get s k = map_of s k"

definition store_insert :: "string \<Rightarrow> Patient \<Rightarrow> store \<Rightarrow> store" where
  "store_insert k v s = AList.update k v s"

definition store_remove :: "string \<Rightarrow> store \<Rightarrow> Patient option \<times> store" where
  "store_remove k s = (map_of s k, AList.delete k s)"

definition store_values :: "store \<Rightarrow> Patient list" where
  "store_values s = map snd s"

text \<open>The association list represents a map when no key occurs twice.\<close>

definition store_ok :: "store \<Rightarrow> bool" where
  "store_ok s = distinct (map fst s)"

section \<open>Helpers of the source\<close>

text \<open>
  \<^verbatim>\<open>isValidUUID\<close> tests the id against the regular expression
  \<^verbatim>\<open>/^[\da-f]{8}-([\da-f]{4}-){3}[\da-f]{12}$/i\<close>. Every piece of the expression has a fixed
  length, so matching is one pass from the left: \<open>hexGroup n\<close> consumes \<open>n\<close> characters of
  the class \<^verbatim>\<open>[\da-f]\<close> (with the flag \<^verbatim>\<open>i\<close>, so both cases), \<open>dash\<close> consumes one \<^verbatim>\<open>-\<close>,
  and the anchors require that the match starts at the first character and that nothing is left.
\<close>

definition hexDigit :: "char \<Rightarrow> bool" where
  "hexDigit c = (c \<in> set ''0123456789abcdefABCDEF'')"

fun hexGroup :: "nat \<Rightarrow> string \<Rightarrow> string option" where
  "hexGroup 0 s = Some s"
| "hexGroup (Suc n) [] = None"
| "hexGroup (Suc n) (c # s) = (if hexDigit c then hexGroup n s else None)"

fun dash :: "string \<Rightarrow> string option" where
  "dash [] = None"
| "dash (c # s) = (if c = CHR ''-'' then Some s else None)"

definition hexGroupDash :: "nat \<Rightarrow> string \<Rightarrow> string option" where
  "hexGroupDash n s = (case hexGroup n s of None \<Rightarrow> None | Some r \<Rightarrow> dash r)"

definition isValidUUID :: "string \<Rightarrow> bool" where
  "isValidUUID i =
     (case hexGroupDash 8 i of None \<Rightarrow> False | Some r1 \<Rightarrow>
       (case hexGroupDash 4 r1 of None \<Rightarrow> False | Some r2 \<Rightarrow>
         (case hexGroupDash 4 r2 of None \<Rightarrow> False | Some r3 \<Rightarrow>
           (case hexGroupDash 4 r3 of None \<Rightarrow> False | Some r4 \<Rightarrow>
              hexGroup 12 r4 = Some []))))"

text \<open>
  \<^verbatim>\<open>Array.prototype.findIndex\<close>: the index of the first element that satisfies the
  predicate, and \<open>-1\<close> when there is none.
\<close>

fun findIndex :: "('a \<Rightarrow> bool) \<Rightarrow> 'a list \<Rightarrow> int" where
  "findIndex P [] = - 1"
| "findIndex P (x # xs) =
     (if P x then 0 else (let i = findIndex P xs in if i = - 1 then - 1 else i + 1))"

text \<open>
  \<^verbatim>\<open>xs.slice(0, i)\<close> and \<^verbatim>\<open>xs.slice(i)\<close> for an index \<open>i \<ge> 0\<close>, the only way the source
  calls them (after the test \<^verbatim>\<open>recordIndex !== -1\<close>).
\<close>

definition slice_to :: "'a list \<Rightarrow> int \<Rightarrow> 'a list" where
  "slice_to xs i = take (nat i) xs"

definition slice_from :: "'a list \<Rightarrow> int \<Rightarrow> 'a list" where
  "slice_from xs i = drop (nat i) xs"



section \<open>Lower-casing\<close>















section \<open>The exported operations\<close>

text \<open>
  Every operation that writes takes the store and returns its result together with the new
  store; a query takes the store and returns its result. The two inputs that come from the
  environment are parameters: \<open>newId\<close>, the string that \<^verbatim>\<open>uuidv4()\<close> returns in
  \<^verbatim>\<open>addPatient\<close>, and \<open>now\<close>, the value of \<^verbatim>\<open>ic.time()\<close>. The \<^verbatim>\<open>catch\<close> branches
  of the source are not reached, since no modelled store operation throws.
\<close>

definition addPatient :: "PatientPayload \<Rightarrow> string \<Rightarrow> store \<Rightarrow> Patient Result \<times> store" where
  "addPatient payload newId s =
     (if \<not> truthy_string (payload_name payload) \<or> \<not> truthy_number (payload_age payload)
         \<or> \<not> truthy_string (payload_gender payload)
      then (Err ''Missing required fields in the patient object'', s)
      else
        (let newPatient = \<lparr> patient_id = newId,
                             name = payload_name payload,
                             age = payload_age payload,
                             gender = payload_gender payload,
                             admittedAt = None,
                             dischargedAt = None,
                             isAdmitted = False,
                             medicalRecords = payload_medicalRecords payload \<rparr>
         in (Ok newPatient, store_insert (patient_id newPatient) newPatient s)))"

definition getPatients :: "store \<Rightarrow> Patient list Result" where
  "getPatients s = Ok (store_values s)"

definition getPatient :: "string \<Rightarrow> store \<Rightarrow> Patient Result" where
  "getPatient i s =
     (if \<not> truthy_string i then Err ''Invalid ID for getting a patient.''
      else (case store_get s i of
              Some patient \<Rightarrow> Ok patient
            | None \<Rightarrow> Err (''Patient with id='' @ i @ '' not found'')))"

definition updatePatient :: "string \<Rightarrow> PatientPayload \<Rightarrow> store \<Rightarrow> Patient Result \<times> store" where
  "updatePatient i payload s =
     (if \<not> truthy_string i then (Err ''Invalid ID for updating a patient.'', s)
      else if \<not> truthy_string (payload_name payload) \<or> \<not> truthy_number (payload_age payload)
              \<or> \<not> truthy_string (payload_gender payload)
      then (Err ''Missing required fields in the patient object'', s)
      else (case store_get s i of
              Some existingPatient \<Rightarrow>
                (let updatedPatient = existingPatient
                       \<lparr> name := payload_name payload,
                         age := payload_age payload,
                         gender := payload_gender payload,
                         medicalRecords := payload_medicalRecords payload \<rparr>
                 in (Ok updatedPatient, store_insert i updatedPatient s))
            | None \<Rightarrow> (Err (''Patient with id='' @ i @ '' does not exist''), s)))"

definition addMedicalRecord :: "string \<Rightarrow> MedicalRecord \<Rightarrow> store \<Rightarrow> Patient Result \<times> store" where
  "addMedicalRecord pid medicalRecord s =
     (if \<not> truthy_string pid then (Err ''Invalid patient ID for adding a medical record.'', s)
      else (case store_get s pid of
              Some patient \<Rightarrow>
                (let updatedPatient = patient
                       \<lparr> medicalRecords := medicalRecords patient @ [medicalRecord] \<rparr>
                 in (Ok updatedPatient, store_insert pid updatedPatient s))
            | None \<Rightarrow> (Err (''Patient with id='' @ pid @ '' does not exist''), s)))"

definition updateMedicalRecord ::
  "string \<Rightarrow> string \<Rightarrow> MedicalRecord \<Rightarrow> store \<Rightarrow> Patient Result \<times> store" where
  "updateMedicalRecord pid medicalRecordId updatedMedicalRecord s =
     (if \<not> truthy_string pid \<or> \<not> truthy_string medicalRecordId
      then (Err ''Invalid patient or medical record ID for updating a medical record.'', s)
      else (case store_get s pid of
              Some patient \<Rightarrow>
                (let recordIndex =
                       findIndex (\<lambda>r. record_id r = medicalRecordId) (medicalRecords patient)
                 in if recordIndex \<noteq> - 1
                    then
                      (let updatedMedicalRecords =
                             slice_to (medicalRecords patient) recordIndex
                             @ [updatedMedicalRecord]
                             @ slice_from (medicalRecords patient) (recordIndex + 1);
                           updatedPatient = patient \<lparr> medicalRecords := updatedMedicalRecords \<rparr>
                       in (Ok updatedPatient, store_insert pid updatedPatient s))
                    else (Err (''Medical record with id='' @ medicalRecordId
                               @ '' not found for patient with id='' @ pid), s))
            | None \<Rightarrow> (Err (''Patient with id='' @ pid @ '' does not exist''), s)))"

definition deleteMedicalRecord :: "string \<Rightarrow> string \<Rightarrow> store \<Rightarrow> Patient Result \<times> store" where
  "deleteMedicalRecord pid medicalRecordId s =
     (if \<not> truthy_string pid \<or> \<not> truthy_string medicalRecordId
      then (Err ''Invalid patient or medical record ID for deleting a medical record.'', s)
      else (case store_get s pid of
              Some patient \<Rightarrow>
                (let recordIndex =
                       findIndex (\<lambda>r. record_id r = medicalRecordId) (medicalRecords patient)
                 in if recordIndex \<noteq> - 1
                    then
                      (let updatedMedicalRecords =
                             slice_to (medicalRecords patient) recordIndex
                             @ slice_from (medicalRecords patient) (recordIndex + 1);
                           updatedPatient = patient \<lparr> medicalRecords := updatedMedicalRecords \<rparr>
                       in (Ok updatedPatient, store_insert pid updatedPatient s))
                    else (Err (''Medical record with id='' @ medicalRecordId
                               @ '' not found for patient with id='' @ pid), s))
            | None \<Rightarrow> (Err (''Patient with id='' @ pid @ '' does not exist''), s)))"


definition admitPatient :: "string \<Rightarrow> 64 word \<Rightarrow> store \<Rightarrow> Patient Result \<times> store" where
  "admitPatient i now s =
     (if \<not> truthy_string i then (Err ''Invalid ID for admitting a patient.'', s)
      else (case store_get s i of
              Some patient \<Rightarrow>
                (if isAdmitted patient
                 then (Err (''Patient with id='' @ i @ '' is already admitted''), s)
                 else
                   (let newPatient = patient \<lparr> isAdmitted := True, admittedAt := Some now \<rparr>
                    in (Ok newPatient, store_insert i newPatient s)))
            | None \<Rightarrow> (Err (''Patient with id='' @ i @ '' not found''), s)))"

definition getMedicalRecords :: "string \<Rightarrow> store \<Rightarrow> MedicalRecord list Result" where
  "getMedicalRecords i s =
     (if \<not> truthy_string i then Err ''Invalid ID for getting medical records.''
      else (case store_get s i of
              Some patient \<Rightarrow> Ok (medicalRecords patient)
            | None \<Rightarrow> Err (''Patient with id='' @ i @ '' not found'')))"

definition dischargePatient :: "string \<Rightarrow> 64 word \<Rightarrow> store \<Rightarrow> Patient Result \<times> store" where
  "dischargePatient i now s =
     (if \<not> truthy_string i then (Err ''Invalid ID for discharging a patient.'', s)
      else (case store_get s i of
              Some patient \<Rightarrow>
                (if \<not> isAdmitted patient
                 then (Err (''Patient with id='' @ i @ '' is not currently admitted''), s)
                 else
                   (let newPatient = patient \<lparr> isAdmitted := False, dischargedAt := Some now \<rparr>
                    in (Ok newPatient, store_insert i newPatient s)))
            | None \<Rightarrow> (Err (''Patient with id='' @ i @ '' not found''), s)))"

definition deletePatient :: "string \<Rightarrow> store \<Rightarrow> Patient option Result \<times> store" where
  "deletePatient i s =
     (if \<not> isValidUUID i then (Err ''Invalid patient ID'', s)
      else
        (case store_remove i s of
           (deletedPatient, s') \<Rightarrow>
             (if \<not> truthy_Opt deletedPatient
              then (Err (''Patient with ID '' @ i @ '' does not exist''), s')
              else (Ok deletedPatient, s'))))"

section \<open>Calls, runs and reachable stores\<close>

text \<open>
  One constructor for each exported operation, with its arguments and, for the three
  operations that read the environment, the value read: the id that \<^verbatim>\<open>uuidv4()\<close>
  returned, or the time that \<^verbatim>\<open>ic.time()\<close> returned.
\<close>

datatype call =
    AddPatient PatientPayload string
  | GetPatients
  | GetPatient string
  | UpdatePatient string PatientPayload
  | AddMedicalRecord string MedicalRecord
  | UpdateMedicalRecord string string MedicalRecord
  | DeleteMedicalRecord string string
  | SearchPatients string
  | AdmitPatient string "64 word"
  | GetMedicalRecords string
  | DischargePatient string "64 word"
  | DeletePatient string

text \<open>
  The store after a call. The four queries (\<^verbatim>\<open>getPatients\<close>, \<^verbatim>\<open>getPatient\<close>,
  \<^verbatim>\<open>searchPatients\<close>, \<^verbatim>\<open>getMedicalRecords\<close>) only call \<^verbatim>\<open>get\<close> and \<^verbatim>\<open>values\<close> of the store.
\<close>

fun run :: "call \<Rightarrow> store \<Rightarrow> store" where
  "run (AddPatient payload newId) s = snd (addPatient payload newId s)"
| "run GetPatients s = s"
| "run (GetPatient i) s = s"
| "run (UpdatePatient i payload) s = snd (updatePatient i payload s)"
| "run (AddMedicalRecord pid r) s = snd (addMedicalRecord pid r s)"
| "run (UpdateMedicalRecord pid rid r) s = snd (updateMedicalRecord pid rid r s)"
| "run (DeleteMedicalRecord pid rid) s = snd (deleteMedicalRecord pid rid s)"
| "run (SearchPatients q) s = s"
| "run (AdmitPatient i now) s = snd (admitPatient i now s)"
| "run (GetMedicalRecords i) s = s"
| "run (DischargePatient i now) s = snd (dischargePatient i now s)"
| "run (DeletePatient i) s = snd (deletePatient i s)"

text \<open>The four read operations.\<close>

fun is_query :: "call \<Rightarrow> bool" where
  "is_query GetPatients = True"
| "is_query (GetPatient i) = True"
| "is_query (SearchPatients q) = True"
| "is_query (GetMedicalRecords i) = True"
| "is_query c = False"

text \<open>
  The key a call operates on: its \<^verbatim>\<open>id\<close> or \<^verbatim>\<open>patientId\<close> argument, or the fresh id
  for \<^verbatim>\<open>addPatient\<close>. \<^verbatim>\<open>getPatients\<close> and \<^verbatim>\<open>searchPatients\<close> name no key.
\<close>

fun target :: "call \<Rightarrow> string option" where
  "target (AddPatient payload newId) = Some newId"
| "target GetPatients = None"
| "target (GetPatient i) = Some i"
| "target (UpdatePatient i payload) = Some i"
| "target (AddMedicalRecord pid r) = Some pid"
| "target (UpdateMedicalRecord pid rid r) = Some pid"
| "target (DeleteMedicalRecord pid rid) = Some pid"
| "target (SearchPatients q) = None"
| "target (AdmitPatient i now) = Some i"
| "target (GetMedicalRecords i) = Some i"
| "target (DischargePatient i now) = Some i"
| "target (DeletePatient i) = Some i"

text \<open>
  Modelled from the spec: the identifier generator (section 4.2), in the source the function
  \<^verbatim>\<open>uuidv4\<close> of the uuid package, whose code is not part of the sources. Its result is the
  parameter \<open>newId\<close> of \<open>addPatient\<close>. What is assumed of it, where a statement is about
  the stores the canister can reach, is that it is a UUID string: a version 4 UUID has the
  shape that \<open>isValidUUID\<close> tests.
\<close>

fun generated_ok :: "call \<Rightarrow> bool" where
  "generated_ok (AddPatient payload newId) = isValidUUID newId"
| "generated_ok c = True"

text \<open>The stores that the canister can be in: the empty one, and the store after a call.\<close>

inductive reachable :: "store \<Rightarrow> bool" where
  init: "reachable []"
| step: "reachable s \<Longrightarrow> generated_ok c \<Longrightarrow> reachable (run c s)"

text \<open>Every key is a UUID string and is the id of the patient stored under it.\<close>

definition keys_inv :: "store \<Rightarrow> bool" where
  "keys_inv s = list_all (\<lambda>(k, p). isValidUUID k \<and> patient_id p = k) s"

text \<open>Every stored patient that is admitted has its admission time.\<close>

definition admitted_inv :: "store \<Rightarrow> bool" where
  "admitted_inv s = list_all (\<lambda>p. isAdmitted p \<longrightarrow> admittedAt p \<noteq> None) (store_values s)"

section \<open>Notions of the specification\<close>

text \<open>
  The UUID shape in the words of the spec: five groups of 8, 4, 4, 4 and 12 hexadecimal
  digits, separated by hyphens.
\<close>

definition uuid_shape :: "string \<Rightarrow> bool" where
  "uuid_shape i =
     (\<exists>a b c d e.
        i = a @ ''-'' @ b @ ''-'' @ c @ ''-'' @ d @ ''-'' @ e
        \<and> length a = 8 \<and> length b = 4 \<and> length c = 4 \<and> length d = 4 \<and> length e = 12
        \<and> list_all hexDigit (a @ b @ c @ d @ e))"

text \<open>The first position of a list at which a predicate holds.\<close>

definition firstIndex :: "('a \<Rightarrow> bool) \<Rightarrow> 'a list \<Rightarrow> nat" where
  "firstIndex P xs = length (takeWhile (\<lambda>x. \<not> P x) xs)"






section \<open>Example data\<close>

definition rec1 :: MedicalRecord where
  "rec1 = \<lparr> record_id = ''r1'', patientId = ''p'', diagnosis = ''flu'',
            treatment = ''rest'', date = 1 \<rparr>"

definition rec2 :: MedicalRecord where
  "rec2 = \<lparr> record_id = ''r2'', patientId = ''p'', diagnosis = ''cold'',
            treatment = ''tea'', date = 2 \<rparr>"

definition rec1b :: MedicalRecord where
  "rec1b = \<lparr> record_id = ''r1'', patientId = ''p'', diagnosis = ''sprain'',
             treatment = ''ice'', date = 3 \<rparr>"

definition rec_new :: MedicalRecord where
  "rec_new = \<lparr> record_id = ''r9'', patientId = ''p'', diagnosis = ''checked'',
               treatment = ''none'', date = 4 \<rparr>"

definition rec_noid :: MedicalRecord where
  "rec_noid = \<lparr> record_id = [], patientId = ''p'', diagnosis = ''flu'',
                treatment = ''rest'', date = 1 \<rparr>"

definition ann_id :: string where
  "ann_id = ''9b1deb4d-3b7d-4bad-9bdd-2b0d7b3dcb6d''"

definition bob_id :: string where
  "bob_id = ''1B9D6BCD-bbfd-4b2d-9b5d-ab8dfbbd4bed''"

definition ann_payload :: PatientPayload where
  "ann_payload = \<lparr> payload_name = ''Ann'', payload_age = Finite 30, payload_gender = ''F'',
                   payload_medicalRecords = [] \<rparr>"

definition bob_payload :: PatientPayload where
  "bob_payload = \<lparr> payload_name = ''Bob'', payload_age = Finite 41, payload_gender = ''M'',
                   payload_medicalRecords = [rec1, rec2, rec1b] \<rparr>"

definition noid_payload :: PatientPayload where
  "noid_payload = \<lparr> payload_name = ''Ann'', payload_age = Finite 30, payload_gender = ''F'',
                    payload_medicalRecords = [rec_noid] \<rparr>"

definition ann :: Patient where
  "ann = \<lparr> patient_id = ann_id, name = ''Ann'', age = Finite 30, gender = ''F'',
           admittedAt = None, dischargedAt = None, isAdmitted = False, medicalRecords = [] \<rparr>"

definition bob :: Patient where
  "bob = \<lparr> patient_id = bob_id, name = ''Bob'', age = Finite 41, gender = ''M'',
           admittedAt = None, dischargedAt = None, isAdmitted = False,
           medicalRecords = [rec1, rec2, rec1b] \<rparr>"

definition ann_noid :: Patient where
  "ann_noid = \<lparr> patient_id = ann_id, name = ''Ann'', age = Finite 30, gender = ''F'',
                admittedAt = None, dischargedAt = None, isAdmitted = False,
                medicalRecords = [rec_noid] \<rparr>"

definition ann_admitted :: Patient where
  "ann_admitted = ann \<lparr> isAdmitted := True, admittedAt := Some 5 \<rparr>"

definition ann_updated :: Patient where
  "ann_updated = \<lparr> patient_id = ann_id, name = ''Bob'', age = Finite 41, gender = ''M'',
           admittedAt = Some 5, dischargedAt = None, isAdmitted = True,
           medicalRecords = [rec1, rec2, rec1b] \<rparr>"

definition bob_added :: Patient where
  "bob_added = bob \<lparr> medicalRecords := [rec1, rec2, rec1b, rec_new] \<rparr>"

definition bob_replaced :: Patient where
  "bob_replaced = bob \<lparr> medicalRecords := [rec_new, rec2, rec1b] \<rparr>"

definition bob_removed :: Patient where
  "bob_removed = bob \<lparr> medicalRecords := [rec2, rec1b] \<rparr>"








text \<open>A patient stored under a key that is not a UUID string.\<close>

definition cat :: Patient where
  "cat = \<lparr> patient_id = ''k1'', name = ''Cat'', age = Finite 7, gender = ''F'',
           admittedAt = None, dischargedAt = None, isAdmitted = False,
           medicalRecords = [rec1] \<rparr>"

section \<open>Facts about the store and the helpers\<close>

lemma store_get_insert:
  "store_get (store_insert k v s) k' = (if k' = k then Some v else store_get s k')"
  by (simp add: store_get_def store_insert_def update_conv')

lemma store_remove_fst: "fst (store_remove k s) = store_get s k"
  by (simp add: store_remove_def store_get_def)

lemma store_get_remove:
  "store_get (snd (store_remove k s)) k' = (if k' = k then None else store_get s k')"
  by (simp add: store_remove_def store_get_def delete_conv')

lemma store_ok_insert: "store_ok s \<Longrightarrow> store_ok (store_insert k v s)"
  by (simp add: store_ok_def store_insert_def distinct_update)

lemma store_ok_remove: "store_ok s \<Longrightarrow> store_ok (snd (store_remove k s))"
  by (simp add: store_ok_def store_remove_def distinct_delete)

lemma set_store_insert: "set (store_insert k v s) \<subseteq> insert (k, v) (set s)"
  unfolding store_insert_def by (induction s) auto

lemma set_store_remove: "set (snd (store_remove k s)) \<subseteq> set s"
  by (auto simp: store_remove_def AList.delete_eq)

lemma store_get_in_set: "store_get s k = Some p \<Longrightarrow> (k, p) \<in> set s"
  by (simp add: store_get_def map_of_SomeD)


lemma uuid_zero_valid: "isValidUUID ''00000000-0000-0000-0000-000000000000''"
  by (simp add: isValidUUID_def hexGroupDash_def hexDigit_def numeral_eq_Suc)

lemma deletePatient_valid:
  "isValidUUID i \<Longrightarrow> deletePatient i s = (Ok (store_get s i), snd (store_remove i s))"
  by (simp add: deletePatient_def store_remove_def store_get_def truthy_Opt_def)

lemma deletePatient_invalid:
  "\<not> isValidUUID i \<Longrightarrow> deletePatient i s = (Err ''Invalid patient ID'', s)"
  by (simp add: deletePatient_def)

lemma hexGroup_Some_iff:
  "hexGroup n s = Some r \<longleftrightarrow> (\<exists>h. s = h @ r \<and> length h = n \<and> list_all hexDigit h)"
proof (induction n s rule: hexGroup.induct)
  case (1 s)
  then show ?case by auto
next
  case (2 n)
  then show ?case by auto
next
  case (3 n c s)
  show ?case
  proof (cases "hexDigit c")
    case True
    have "(\<exists>h. c # s = h @ r \<and> length h = Suc n \<and> list_all hexDigit h)
          \<longleftrightarrow> (\<exists>h'. s = h' @ r \<and> length h' = n \<and> list_all hexDigit h')"
      (is "?L \<longleftrightarrow> ?R")
    proof
      assume ?L
      then obtain h where h: "c # s = h @ r" "length h = Suc n" "list_all hexDigit h" by blast
      then obtain h' where "h = c # h'" by (cases h) auto
      with h show ?R by auto
    next
      assume ?R
      then obtain h' where "s = h' @ r" "length h' = n" "list_all hexDigit h'" by blast
      then have "c # s = (c # h') @ r \<and> length (c # h') = Suc n \<and> list_all hexDigit (c # h')"
        using True by simp
      then show ?L by blast
    qed
    with True 3 show ?thesis by simp
  next
    case False
    have "\<not> (\<exists>h. c # s = h @ r \<and> length h = Suc n \<and> list_all hexDigit h)"
    proof
      assume "\<exists>h. c # s = h @ r \<and> length h = Suc n \<and> list_all hexDigit h"
      then obtain h where h: "c # s = h @ r" "length h = Suc n" "list_all hexDigit h" by blast
      then obtain h' where "h = c # h'" by (cases h) auto
      with h False show False by simp
    qed
    with False show ?thesis by simp
  qed
qed

lemma dash_Some_iff: "dash s = Some r \<longleftrightarrow> s = ''-'' @ r"
  by (cases s) auto

lemma hexGroupDash_Some_iff:
  "hexGroupDash n s = Some r \<longleftrightarrow>
     (\<exists>h. s = h @ ''-'' @ r \<and> length h = n \<and> list_all hexDigit h)"
proof
  assume "hexGroupDash n s = Some r"
  then obtain r' where "hexGroup n s = Some r'" and "dash r' = Some r"
    by (auto simp: hexGroupDash_def split: option.splits)
  then show "\<exists>h. s = h @ ''-'' @ r \<and> length h = n \<and> list_all hexDigit h"
    by (auto simp: hexGroup_Some_iff dash_Some_iff)
next
  assume "\<exists>h. s = h @ ''-'' @ r \<and> length h = n \<and> list_all hexDigit h"
  then have "hexGroup n s = Some (''-'' @ r)"
    unfolding hexGroup_Some_iff by simp
  then show "hexGroupDash n s = Some r"
    by (simp add: hexGroupDash_def)
qed

lemma isValidUUID_iff_uuid_shape: "isValidUUID i \<longleftrightarrow> uuid_shape i"
proof
  assume "isValidUUID i"
  then obtain r1 r2 r3 r4 where
    r: "hexGroupDash 8 i = Some r1" "hexGroupDash 4 r1 = Some r2"
       "hexGroupDash 4 r2 = Some r3" "hexGroupDash 4 r3 = Some r4" "hexGroup 12 r4 = Some []"
    by (auto simp: isValidUUID_def split: option.splits)
  from r(1) obtain a where a: "i = a @ ''-'' @ r1" "length a = 8" "list_all hexDigit a"
    unfolding hexGroupDash_Some_iff by blast
  from r(2) obtain b where b: "r1 = b @ ''-'' @ r2" "length b = 4" "list_all hexDigit b"
    unfolding hexGroupDash_Some_iff by blast
  from r(3) obtain c where c: "r2 = c @ ''-'' @ r3" "length c = 4" "list_all hexDigit c"
    unfolding hexGroupDash_Some_iff by blast
  from r(4) obtain d where d: "r3 = d @ ''-'' @ r4" "length d = 4" "list_all hexDigit d"
    unfolding hexGroupDash_Some_iff by blast
  from r(5) obtain e where e: "r4 = e @ []" "length e = 12" "list_all hexDigit e"
    unfolding hexGroup_Some_iff by blast
  have "i = a @ ''-'' @ b @ ''-'' @ c @ ''-'' @ d @ ''-'' @ e"
    using a(1) b(1) c(1) d(1) e(1) by simp
  moreover have "list_all hexDigit (a @ b @ c @ d @ e)"
    using a(3) b(3) c(3) d(3) e(3) by simp
  ultimately show "uuid_shape i"
    unfolding uuid_shape_def using a(2) b(2) c(2) d(2) e(2) by blast
next
  assume "uuid_shape i"
  then obtain a b c d e where
    i: "i = a @ ''-'' @ b @ ''-'' @ c @ ''-'' @ d @ ''-'' @ e"
    and l: "length a = 8" "length b = 4" "length c = 4" "length d = 4" "length e = 12"
    and h: "list_all hexDigit (a @ b @ c @ d @ e)"
    unfolding uuid_shape_def by blast
  have 1: "hexGroupDash 8 i = Some (b @ ''-'' @ c @ ''-'' @ d @ ''-'' @ e)"
    unfolding hexGroupDash_Some_iff using i l(1) h by auto
  have 2: "hexGroupDash 4 (b @ ''-'' @ c @ ''-'' @ d @ ''-'' @ e) = Some (c @ ''-'' @ d @ ''-'' @ e)"
    unfolding hexGroupDash_Some_iff using l(2) h by auto
  have 3: "hexGroupDash 4 (c @ ''-'' @ d @ ''-'' @ e) = Some (d @ ''-'' @ e)"
    unfolding hexGroupDash_Some_iff using l(3) h by auto
  have 4: "hexGroupDash 4 (d @ ''-'' @ e) = Some e"
    unfolding hexGroupDash_Some_iff using l(4) h by auto
  have 5: "hexGroup 12 e = Some []"
    unfolding hexGroup_Some_iff using l(5) h by auto
  show "isValidUUID i"
    using 1 2 3 4 5 by (simp add: isValidUUID_def)
qed

lemma findIndex_takeWhile:
  "findIndex P xs = (if \<exists>x\<in>set xs. P x then int (length (takeWhile (\<lambda>x. \<not> P x) xs)) else - 1)"
  by (induction xs) (auto simp: Let_def)

lemma findIndex_none: "findIndex P xs = - 1 \<longleftrightarrow> (\<forall>x\<in>set xs. \<not> P x)"
  by (simp add: findIndex_takeWhile)

lemma firstIndex_less: "\<exists>x\<in>set xs. P x \<Longrightarrow> firstIndex P xs < length xs"
  unfolding firstIndex_def by (induction xs) auto

lemma firstIndex_holds: "\<exists>x\<in>set xs. P x \<Longrightarrow> P (xs ! firstIndex P xs)"
  unfolding firstIndex_def by (induction xs) auto

lemma firstIndex_first: "j < firstIndex P xs \<Longrightarrow> \<not> P (xs ! j)"
  unfolding firstIndex_def
proof (induction xs arbitrary: j)
  case Nil
  then show ?case by simp
next
  case (Cons x xs)
  then show ?case by (cases j) (auto split: if_splits)
qed

lemma replace_at:
  "i < length xs \<Longrightarrow> take i xs @ [y] @ drop (Suc i) xs = xs[i := y]"
  by (simp add: upd_conv_take_nth_drop)

lemma ann_id_valid: "isValidUUID ann_id"
  by (simp add: ann_id_def isValidUUID_def hexGroupDash_def hexDigit_def numeral_eq_Suc)

lemma bob_id_valid: "isValidUUID bob_id"
  by (simp add: bob_id_def isValidUUID_def hexGroupDash_def hexDigit_def numeral_eq_Suc)

lemma k1_not_valid: "\<not> isValidUUID ''k1''"
  by (simp add: isValidUUID_def hexGroupDash_def hexDigit_def numeral_eq_Suc)


lemmas op_defs = addPatient_def updatePatient_def addMedicalRecord_def updateMedicalRecord_def
  deleteMedicalRecord_def admitPatient_def dischargePatient_def

lemma snd_deletePatient:
  "snd (deletePatient i s) = (if isValidUUID i then snd (store_remove i s) else s)"
  by (simp add: deletePatient_valid deletePatient_invalid)

lemma list_all_store_insert:
  "list_all Q s \<Longrightarrow> Q (k, v) \<Longrightarrow> list_all Q (store_insert k v s)"
  using set_store_insert[of k v s] by (auto simp: list_all_iff)

lemma list_all_store_remove:
  "list_all Q s \<Longrightarrow> list_all Q (snd (store_remove k s))"
  using set_store_remove[of k s] by (auto simp: list_all_iff)

lemma list_all_store_get:
  "list_all Q s \<Longrightarrow> store_get s k = Some p \<Longrightarrow> Q (k, p)"
  by (auto simp: list_all_iff dest: store_get_in_set)

lemma store_ok_run: "store_ok s \<Longrightarrow> store_ok (run c s)"
  by (cases c)
     (auto simp: op_defs snd_deletePatient Let_def store_ok_insert store_ok_remove
           split: option.splits prod.splits)

lemma keys_inv_run:
  assumes "keys_inv s" and "generated_ok c"
  shows "keys_inv (run c s)"
proof -
  let ?Q = "\<lambda>(k, p). isValidUUID k \<and> patient_id p = k"
  have ins: "keys_inv (store_insert k v s)" if "isValidUUID k" "patient_id v = k" for k v
    using assms(1) that unfolding keys_inv_def by (intro list_all_store_insert) auto
  have got: "isValidUUID k \<and> patient_id p = k" if "store_get s k = Some p" for k p
    using list_all_store_get[OF assms(1)[unfolded keys_inv_def] that] by simp
  have rem: "keys_inv (snd (store_remove k s))" for k
    using assms(1) unfolding keys_inv_def by (rule list_all_store_remove)
  show ?thesis
    using assms
    by (cases c)
       (auto simp: op_defs snd_deletePatient Let_def ins got rem split: option.splits prod.splits)
qed

lemma admitted_inv_run:
  assumes "admitted_inv s"
  shows "admitted_inv (run c s)"
proof -
  let ?Q = "\<lambda>(k, p). isAdmitted p \<longrightarrow> admittedAt p \<noteq> None"
  have eq: "admitted_inv t = list_all ?Q t" for t
    by (auto simp: admitted_inv_def store_values_def list_all_iff)
  have ins: "admitted_inv (store_insert k v s)" if "isAdmitted v \<longrightarrow> admittedAt v \<noteq> None" for k v
    using assms that unfolding eq by (intro list_all_store_insert) auto
  have got: "isAdmitted p \<longrightarrow> admittedAt p \<noteq> None" if "store_get s k = Some p" for k p
    using list_all_store_get[OF assms[unfolded eq] that] by simp
  have rem: "admitted_inv (snd (store_remove k s))" for k
    using assms unfolding eq by (rule list_all_store_remove)
  show ?thesis
    using assms
    by (cases c)
       (auto simp: op_defs snd_deletePatient Let_def ins got rem split: option.splits prod.splits)
qed

lemma reachable_invs:
  "reachable s \<Longrightarrow> store_ok s \<and> keys_inv s \<and> admitted_inv s"
proof (induction rule: reachable.induct)
  case init
  show ?case by (simp add: store_ok_def keys_inv_def admitted_inv_def store_values_def)
next
  case (step s c)
  then show ?case by (simp add: store_ok_run keys_inv_run admitted_inv_run)
qed

lemma isValidUUID_nonempty: "isValidUUID i \<Longrightarrow> i \<noteq> []"
  by (auto simp: isValidUUID_def hexGroupDash_def numeral_eq_Suc)

lemma reachable_stored:
  assumes "reachable s" and "p \<in> set (store_values s)"
  shows "store_get s (patient_id p) = Some p" and "patient_id p \<noteq> []"
proof -
  from assms(1) have ok: "store_ok s" and keys: "keys_inv s"
    using reachable_invs by auto
  from assms(2) obtain k where k: "(k, p) \<in> set s"
    by (auto simp: store_values_def)
  with keys have kp: "isValidUUID k" "patient_id p = k"
    by (auto simp: keys_inv_def list_all_iff)
  from ok k have "store_get s k = Some p"
    by (simp add: store_ok_def store_get_def)
  with kp show "store_get s (patient_id p) = Some p" by simp
  from kp show "patient_id p \<noteq> []" by (auto dest: isValidUUID_nonempty)
qed

lemma run_add_ann: "run (AddPatient ann_payload ann_id) [] = [(ann_id, ann)]"
  by (simp add: Let_def addPatient_def ann_payload_def ann_def truthy_string_def store_insert_def)

lemma reachable_ann: "reachable [(ann_id, ann)]"
  using reachable.step[OF reachable.init, of "AddPatient ann_payload ann_id"]
  by (simp only: run_add_ann generated_ok.simps ann_id_valid)

lemma run_admit_ann: "run (AdmitPatient ann_id 5) [(ann_id, ann)] = [(ann_id, ann_admitted)]"
  by (simp add: Let_def admitPatient_def ann_admitted_def ann_def ann_id_def truthy_string_def store_insert_def store_get_def)

lemma reachable_ann_admitted: "reachable [(ann_id, ann_admitted)]"
  using reachable.step[OF reachable_ann, of "AdmitPatient ann_id 5"]
  by (simp only: run_admit_ann generated_ok.simps)


lemma admitPatient_new:
  assumes "i \<noteq> []" and "store_get s i = Some p" and "\<not> isAdmitted p"
  shows "admitPatient i now s =
           (Ok (p\<lparr>isAdmitted := True, admittedAt := Some now\<rparr>),
            store_insert i (p\<lparr>isAdmitted := True, admittedAt := Some now\<rparr>) s)"
  using assms by (simp add: admitPatient_def truthy_string_def Let_def)

lemma admitPatient_already:
  assumes "i \<noteq> []" and "store_get s i = Some p" and "isAdmitted p"
  shows "admitPatient i now s = (Err (''Patient with id='' @ i @ '' is already admitted''), s)"
  using assms by (simp add: admitPatient_def truthy_string_def Let_def)

lemma dischargePatient_admitted:
  assumes "i \<noteq> []" and "store_get s i = Some p" and "isAdmitted p"
  shows "dischargePatient i now s =
           (Ok (p\<lparr>isAdmitted := False, dischargedAt := Some now\<rparr>),
            store_insert i (p\<lparr>isAdmitted := False, dischargedAt := Some now\<rparr>) s)"
  using assms by (simp add: dischargePatient_def truthy_string_def Let_def)

lemma dischargePatient_not_admitted:
  assumes "i \<noteq> []" and "store_get s i = Some p" and "\<not> isAdmitted p"
  shows "dischargePatient i now s =
           (Err (''Patient with id='' @ i @ '' is not currently admitted''), s)"
  using assms by (simp add: dischargePatient_def truthy_string_def Let_def)


lemma ann_id_nonempty: "ann_id \<noteq> []"
  by (simp add: ann_id_def)

lemma bob_id_nonempty: "bob_id \<noteq> []"
  by (simp add: bob_id_def)

lemma addPatient_Ok:
  assumes "addPatient pl newId s = (Ok x, s')"
  shows "x = \<lparr> patient_id = newId, name = payload_name pl, age = payload_age pl,
               gender = payload_gender pl, admittedAt = None, dischargedAt = None,
               isAdmitted = False, medicalRecords = payload_medicalRecords pl \<rparr>"
    and "s' = store_insert newId x s"
  using assms by (auto simp: addPatient_def Let_def split: if_splits)

lemma addPatient_succeeds:
  assumes "payload_name pl \<noteq> []" and "truthy_number (payload_age pl)"
    and "payload_gender pl \<noteq> []"
  shows "\<exists>x. fst (addPatient pl newId s) = Ok x"
  using assms by (simp add: addPatient_def Let_def truthy_string_def)

lemma updatePatient_Ok:
  assumes "updatePatient i pl s = (Ok new, s')"
  shows "\<exists>old. store_get s i = Some old
           \<and> new = old\<lparr> name := payload_name pl, age := payload_age pl,
                         gender := payload_gender pl,
                         medicalRecords := payload_medicalRecords pl \<rparr>
           \<and> s' = store_insert i new s"
  using assms by (auto simp: updatePatient_def Let_def split: if_splits option.splits)

lemma addMedicalRecord_Ok:
  assumes "addMedicalRecord pid r s = (Ok p', s')"
  shows "pid \<noteq> [] \<and> (\<exists>p. store_get s pid = Some p
           \<and> p' = p\<lparr> medicalRecords := medicalRecords p @ [r] \<rparr>
           \<and> s' = store_insert pid p' s)"
  using assms
  by (auto simp: addMedicalRecord_def Let_def truthy_string_def split: if_splits option.splits)

lemma findIndex_firstIndex:
  "\<exists>x\<in>set xs. P x \<Longrightarrow> findIndex P xs = int (firstIndex P xs)"
  by (simp add: findIndex_takeWhile firstIndex_def)

lemma updateMedicalRecord_found:
  assumes "pid \<noteq> []" and "rid \<noteq> []" and "store_get s pid = Some p"
    and "\<exists>r\<in>set (medicalRecords p). record_id r = rid"
  shows "updateMedicalRecord pid rid new s =
           (Ok (p\<lparr>medicalRecords :=
                    (medicalRecords p)[firstIndex (\<lambda>r. record_id r = rid) (medicalRecords p) := new]\<rparr>),
            store_insert pid
              (p\<lparr>medicalRecords :=
                    (medicalRecords p)[firstIndex (\<lambda>r. record_id r = rid) (medicalRecords p) := new]\<rparr>)
              s)"
proof -
  let ?P = "\<lambda>r. record_id r = rid"
  let ?i = "firstIndex ?P (medicalRecords p)"
  have fi: "findIndex ?P (medicalRecords p) = int ?i"
    using assms(4) by (rule findIndex_firstIndex)
  have lt: "?i < length (medicalRecords p)"
    using assms(4) by (rule firstIndex_less)
  have "slice_to (medicalRecords p) (int ?i) @ [new] @ slice_from (medicalRecords p) (int ?i + 1)
          = (medicalRecords p)[?i := new]"
    using replace_at[OF lt, of new] by (simp add: slice_to_def slice_from_def nat_add_distrib)
  then show ?thesis
    using assms(1-3) fi by (simp add: updateMedicalRecord_def truthy_string_def Let_def)
qed

lemma deleteMedicalRecord_found:
  assumes "pid \<noteq> []" and "rid \<noteq> []" and "store_get s pid = Some p"
    and "\<exists>r\<in>set (medicalRecords p). record_id r = rid"
  shows "deleteMedicalRecord pid rid s =
           (Ok (p\<lparr>medicalRecords :=
                    take (firstIndex (\<lambda>r. record_id r = rid) (medicalRecords p)) (medicalRecords p)
                    @ drop (Suc (firstIndex (\<lambda>r. record_id r = rid) (medicalRecords p)))
                        (medicalRecords p)\<rparr>),
            store_insert pid
              (p\<lparr>medicalRecords :=
                    take (firstIndex (\<lambda>r. record_id r = rid) (medicalRecords p)) (medicalRecords p)
                    @ drop (Suc (firstIndex (\<lambda>r. record_id r = rid) (medicalRecords p)))
                        (medicalRecords p)\<rparr>)
              s)"
proof -
  let ?P = "\<lambda>r. record_id r = rid"
  let ?i = "firstIndex ?P (medicalRecords p)"
  have fi: "findIndex ?P (medicalRecords p) = int ?i"
    using assms(4) by (rule findIndex_firstIndex)
  have "slice_to (medicalRecords p) (int ?i) @ slice_from (medicalRecords p) (int ?i + 1)
          = take ?i (medicalRecords p) @ drop (Suc ?i) (medicalRecords p)"
    by (simp add: slice_to_def slice_from_def nat_add_distrib)
  then show ?thesis
    using assms(1-3) fi by (simp add: deleteMedicalRecord_def truthy_string_def Let_def)
qed

lemma medicalRecord_not_found:
  assumes "pid \<noteq> []" and "rid \<noteq> []" and "store_get s pid = Some p"
    and "\<not> (\<exists>r\<in>set (medicalRecords p). record_id r = rid)"
  shows "updateMedicalRecord pid rid new s =
           (Err (''Medical record with id='' @ rid @ '' not found for patient with id='' @ pid), s)"
    and "deleteMedicalRecord pid rid s =
           (Err (''Medical record with id='' @ rid @ '' not found for patient with id='' @ pid), s)"
proof -
  have "findIndex (\<lambda>r. record_id r = rid) (medicalRecords p) = - 1"
    using assms(4) by (simp add: findIndex_none)
  then show "updateMedicalRecord pid rid new s =
           (Err (''Medical record with id='' @ rid @ '' not found for patient with id='' @ pid), s)"
    and "deleteMedicalRecord pid rid s =
           (Err (''Medical record with id='' @ rid @ '' not found for patient with id='' @ pid), s)"
    using assms(1-3)
    by (simp_all add: updateMedicalRecord_def deleteMedicalRecord_def truthy_string_def Let_def)
qed

lemma reachable_key_nonempty:
  assumes "reachable s" and "store_get s k = Some p"
  shows "k \<noteq> []"
proof -
  from assms(1) have "keys_inv s" using reachable_invs by simp
  with assms(2) have "isValidUUID k"
    unfolding keys_inv_def by (auto dest: list_all_store_get)
  then show ?thesis by (rule isValidUUID_nonempty)
qed

lemma run_add_bob: "run (AddPatient bob_payload bob_id) [] = [(bob_id, bob)]"
  by (simp add: addPatient_def Let_def bob_payload_def bob_def truthy_string_def store_insert_def)

lemma reachable_bob: "reachable [(bob_id, bob)]"
  using reachable.step[OF reachable.init, of "AddPatient bob_payload bob_id"]
  by (simp only: run_add_bob generated_ok.simps bob_id_valid)

lemma run_add_ann_noid: "run (AddPatient noid_payload ann_id) [] = [(ann_id, ann_noid)]"
  by (simp add: addPatient_def Let_def noid_payload_def ann_noid_def truthy_string_def
      store_insert_def)

lemma reachable_ann_noid: "reachable [(ann_id, ann_noid)]"
  using reachable.step[OF reachable.init, of "AddPatient noid_payload ann_id"]
  by (simp only: run_add_ann_noid generated_ok.simps ann_id_valid)






























lemma frame_insert:
  "k \<noteq> i \<Longrightarrow> store_get (store_insert i v s) k = store_get s k"
  by (simp add: store_get_insert)

section \<open>Deleting a patient\<close>

text \<open>
  C1. The claim: for a UUID-shaped id that is not a key of the store, \<^verbatim>\<open>deletePatient\<close>
  returns the error that the patient does not exist; for a UUID-shaped id that is a key, it
  removes the entry and returns the removed patient as the success value.
  The source tests the value that \<^verbatim>\<open>remove\<close> returns with \<^verbatim>\<open>!deletedPatient\<close>. That value
  is an \<^verbatim>\<open>Opt<Patient>\<close>, an object in both of its cases, so the test never holds and the
  branch with the message is never taken. On the empty store and the id made of zeros the
  operation returns \<open>Ok None\<close>, not the error of the claim.
\<close>

theorem deletePatient_absent_returns_Ok_None:
  "deletePatient ''00000000-0000-0000-0000-000000000000'' []
     = (Ok None, [])"
  by (simp add: deletePatient_valid uuid_zero_valid store_get_def store_remove_def)

text \<open>
  For a UUID-shaped key that is in the store the operation does what is expected of it: the
  entry is removed and the patient that was stored comes back as \<open>Ok (Some p)\<close>.
\<close>

lemma deletePatient_present:
  assumes "isValidUUID i" and "store_get s i = Some p"
  shows "fst (deletePatient i s) = Ok (Some p)"
    and "store_get (snd (deletePatient i s)) i = None"
    and "k \<noteq> i \<Longrightarrow> store_get (snd (deletePatient i s)) k = store_get s k"
  using assms by (simp_all add: deletePatient_valid store_get_remove)

text \<open>
  C2. For every id that does not have the UUID shape (five groups of 8, 4, 4, 4 and 12
  hexadecimal digits), \<^verbatim>\<open>deletePatient\<close> returns the error \<^verbatim>\<open>Invalid patient ID\<close> and the
  store is the one it was. No other operation that takes an id checks its shape; each
  accepts any non-empty id and goes on to the lookup. For a non-empty id under which a
  patient is stored, \<^verbatim>\<open>getPatient\<close> and \<^verbatim>\<open>getMedicalRecords\<close> return the patient and its
  records, and \<^verbatim>\<open>updatePatient\<close>, \<^verbatim>\<open>addMedicalRecord\<close>, \<^verbatim>\<open>updateMedicalRecord\<close>,
  \<^verbatim>\<open>deleteMedicalRecord\<close>, \<^verbatim>\<open>admitPatient\<close> and \<^verbatim>\<open>dischargePatient\<close> succeed whenever
  their other preconditions hold. For a non-empty id under which nothing is stored, each of
  them returns its error for a missing patient, not an error about the id.
\<close>

theorem shape_check_only_in_deletePatient:
  "(\<not> uuid_shape i \<longrightarrow> deletePatient i s = (Err ''Invalid patient ID'', s))
   \<and> (j \<noteq> [] \<and> store_get s j = Some p \<longrightarrow>
        getPatient j s = Ok p
        \<and> getMedicalRecords j s = Ok (medicalRecords p)
        \<and> (payload_name pl \<noteq> [] \<and> truthy_number (payload_age pl) \<and> payload_gender pl \<noteq> []
             \<longrightarrow> (\<exists>p'. fst (updatePatient j pl s) = Ok p'))
        \<and> (\<exists>p'. fst (addMedicalRecord j r s) = Ok p')
        \<and> (rid \<noteq> [] \<and> rid \<in> record_id ` set (medicalRecords p)
             \<longrightarrow> (\<exists>p'. fst (updateMedicalRecord j rid r s) = Ok p')
               \<and> (\<exists>p'. fst (deleteMedicalRecord j rid s) = Ok p'))
        \<and> (\<not> isAdmitted p \<longrightarrow> (\<exists>p'. fst (admitPatient j now s) = Ok p'))
        \<and> (isAdmitted p \<longrightarrow> (\<exists>p'. fst (dischargePatient j now s) = Ok p')))
   \<and> (j \<noteq> [] \<and> store_get s j = None \<longrightarrow>
        getPatient j s = Err (''Patient with id='' @ j @ '' not found'')
        \<and> getMedicalRecords j s = Err (''Patient with id='' @ j @ '' not found'')
        \<and> (payload_name pl \<noteq> [] \<and> truthy_number (payload_age pl) \<and> payload_gender pl \<noteq> []
             \<longrightarrow> updatePatient j pl s = (Err (''Patient with id='' @ j @ '' does not exist''), s))
        \<and> addMedicalRecord j r s = (Err (''Patient with id='' @ j @ '' does not exist''), s)
        \<and> (rid \<noteq> []
             \<longrightarrow> updateMedicalRecord j rid r s
                   = (Err (''Patient with id='' @ j @ '' does not exist''), s)
               \<and> deleteMedicalRecord j rid s
                   = (Err (''Patient with id='' @ j @ '' does not exist''), s))
        \<and> admitPatient j now s = (Err (''Patient with id='' @ j @ '' not found''), s)
        \<and> dischargePatient j now s = (Err (''Patient with id='' @ j @ '' not found''), s))"
proof -
  have A: "\<not> uuid_shape i \<longrightarrow> deletePatient i s = (Err ''Invalid patient ID'', s)"
    by (simp add: deletePatient_invalid isValidUUID_iff_uuid_shape)
  have B: "getPatient j s = Ok p" "getMedicalRecords j s = Ok (medicalRecords p)"
    "\<exists>p'. fst (addMedicalRecord j r s) = Ok p'"
    if "j \<noteq> []" "store_get s j = Some p"
    using that by (simp_all add: getPatient_def getMedicalRecords_def addMedicalRecord_def
        truthy_string_def Let_def)
  have C: "\<exists>p'. fst (updatePatient j pl s) = Ok p'"
    if "j \<noteq> []" "store_get s j = Some p"
      "payload_name pl \<noteq> []" "truthy_number (payload_age pl)" "payload_gender pl \<noteq> []"
    using that by (simp add: updatePatient_def truthy_string_def Let_def)
  have D: "\<exists>p'. fst (updateMedicalRecord j rid r s) = Ok p'"
    "\<exists>p'. fst (deleteMedicalRecord j rid s) = Ok p'"
    if "j \<noteq> []" "store_get s j = Some p" "rid \<noteq> []" "rid \<in> record_id ` set (medicalRecords p)"
  proof -
    from that(4) have "findIndex (\<lambda>r. record_id r = rid) (medicalRecords p) \<noteq> - 1"
      by (auto simp: findIndex_none)
    with that show "\<exists>p'. fst (updateMedicalRecord j rid r s) = Ok p'"
      "\<exists>p'. fst (deleteMedicalRecord j rid s) = Ok p'"
      by (simp_all add: updateMedicalRecord_def deleteMedicalRecord_def truthy_string_def Let_def)
  qed
  have E: "\<not> isAdmitted p \<longrightarrow> (\<exists>p'. fst (admitPatient j now s) = Ok p')"
    "isAdmitted p \<longrightarrow> (\<exists>p'. fst (dischargePatient j now s) = Ok p')"
    if "j \<noteq> []" "store_get s j = Some p"
    using that by (simp_all add: admitPatient_def dischargePatient_def truthy_string_def Let_def)
  have F: "getPatient j s = Err (''Patient with id='' @ j @ '' not found'')"
    "getMedicalRecords j s = Err (''Patient with id='' @ j @ '' not found'')"
    "addMedicalRecord j r s = (Err (''Patient with id='' @ j @ '' does not exist''), s)"
    "admitPatient j now s = (Err (''Patient with id='' @ j @ '' not found''), s)"
    "dischargePatient j now s = (Err (''Patient with id='' @ j @ '' not found''), s)"
    if "j \<noteq> []" "store_get s j = None"
    using that by (simp_all add: getPatient_def getMedicalRecords_def addMedicalRecord_def
        admitPatient_def dischargePatient_def truthy_string_def)
  have G: "updatePatient j pl s = (Err (''Patient with id='' @ j @ '' does not exist''), s)"
    if "j \<noteq> []" "store_get s j = None"
      "payload_name pl \<noteq> []" "truthy_number (payload_age pl)" "payload_gender pl \<noteq> []"
    using that by (simp add: updatePatient_def truthy_string_def)
  have H: "updateMedicalRecord j rid r s
             = (Err (''Patient with id='' @ j @ '' does not exist''), s)"
    "deleteMedicalRecord j rid s = (Err (''Patient with id='' @ j @ '' does not exist''), s)"
    if "j \<noteq> []" "store_get s j = None" "rid \<noteq> []"
    using that
    by (simp_all add: updateMedicalRecord_def deleteMedicalRecord_def truthy_string_def)
  have P1: "j \<noteq> [] \<and> store_get s j = Some p \<longrightarrow>
        getPatient j s = Ok p
        \<and> getMedicalRecords j s = Ok (medicalRecords p)
        \<and> (payload_name pl \<noteq> [] \<and> truthy_number (payload_age pl) \<and> payload_gender pl \<noteq> []
             \<longrightarrow> (\<exists>p'. fst (updatePatient j pl s) = Ok p'))
        \<and> (\<exists>p'. fst (addMedicalRecord j r s) = Ok p')
        \<and> (rid \<noteq> [] \<and> rid \<in> record_id ` set (medicalRecords p)
             \<longrightarrow> (\<exists>p'. fst (updateMedicalRecord j rid r s) = Ok p')
               \<and> (\<exists>p'. fst (deleteMedicalRecord j rid s) = Ok p'))
        \<and> (\<not> isAdmitted p \<longrightarrow> (\<exists>p'. fst (admitPatient j now s) = Ok p'))
        \<and> (isAdmitted p \<longrightarrow> (\<exists>p'. fst (dischargePatient j now s) = Ok p'))"
    using B C D E by blast
  have P2: "j \<noteq> [] \<and> store_get s j = None \<longrightarrow>
        getPatient j s = Err (''Patient with id='' @ j @ '' not found'')
        \<and> getMedicalRecords j s = Err (''Patient with id='' @ j @ '' not found'')
        \<and> (payload_name pl \<noteq> [] \<and> truthy_number (payload_age pl) \<and> payload_gender pl \<noteq> []
             \<longrightarrow> updatePatient j pl s = (Err (''Patient with id='' @ j @ '' does not exist''), s))
        \<and> addMedicalRecord j r s = (Err (''Patient with id='' @ j @ '' does not exist''), s)
        \<and> (rid \<noteq> []
             \<longrightarrow> updateMedicalRecord j rid r s
                   = (Err (''Patient with id='' @ j @ '' does not exist''), s)
               \<and> deleteMedicalRecord j rid s
                   = (Err (''Patient with id='' @ j @ '' does not exist''), s))
        \<and> admitPatient j now s = (Err (''Patient with id='' @ j @ '' not found''), s)
        \<and> dischargePatient j now s = (Err (''Patient with id='' @ j @ '' not found''), s)"
    using F G H by blast
  from A P1 P2 show ?thesis by (intro conjI)
qed

theorem shape_check_only_in_deletePatient_witness:
  "\<not> uuid_shape ''k1''
   \<and> deletePatient ''k1'' [(''k1'', cat)] = (Err ''Invalid patient ID'', [(''k1'', cat)])
   \<and> getPatient ''k1'' [(''k1'', cat)] = Ok cat
   \<and> getMedicalRecords ''k1'' [(''k1'', cat)] = Ok [rec1]
   \<and> (\<exists>p'. fst (updatePatient ''k1'' bob_payload [(''k1'', cat)]) = Ok p')
   \<and> (\<exists>p'. fst (addMedicalRecord ''k1'' rec2 [(''k1'', cat)]) = Ok p')
   \<and> (\<exists>p'. fst (updateMedicalRecord ''k1'' ''r1'' rec2 [(''k1'', cat)]) = Ok p')
   \<and> (\<exists>p'. fst (deleteMedicalRecord ''k1'' ''r1'' [(''k1'', cat)]) = Ok p')
   \<and> (\<exists>p'. fst (admitPatient ''k1'' 5 [(''k1'', cat)]) = Ok p')
   \<and> getPatient ''k2'' [(''k1'', cat)] = Err ''Patient with id=k2 not found''
   \<and> admitPatient ''k2'' 5 [(''k1'', cat)] = (Err ''Patient with id=k2 not found'', [(''k1'', cat)])
   \<and> addMedicalRecord ''k2'' rec2 [(''k1'', cat)]
        = (Err ''Patient with id=k2 does not exist'', [(''k1'', cat)])"
proof -
  let ?S = "[(''k1'', cat)]"
  have n: "\<not> uuid_shape ''k1''"
    using k1_not_valid by (simp add: isValidUUID_iff_uuid_shape)
  have g: "''k1'' \<noteq> [] \<and> store_get ?S ''k1'' = Some cat"
    by (simp add: store_get_def)
  have g2: "''k2'' \<noteq> [] \<and> store_get ?S ''k2'' = None"
    by (simp add: store_get_def)
  have pl: "payload_name bob_payload \<noteq> [] \<and> truthy_number (payload_age bob_payload)
            \<and> payload_gender bob_payload \<noteq> []"
    by (simp add: bob_payload_def)
  have r: "''r1'' \<noteq> [] \<and> ''r1'' \<in> record_id ` set (medicalRecords cat)"
    by (simp add: cat_def rec1_def)
  have a: "\<not> isAdmitted cat" "medicalRecords cat = [rec1]"
    by (simp_all add: cat_def)
  note t1 = shape_check_only_in_deletePatient
      [of "''k1''" ?S "''k1''" cat bob_payload rec2 "''r1''" 5]
  note t2 = shape_check_only_in_deletePatient
      [of "''k1''" ?S "''k2''" cat bob_payload rec2 "''r1''" 5]
  from t1 n g pl r a have 1:
    "deletePatient ''k1'' ?S = (Err ''Invalid patient ID'', ?S)"
    "getPatient ''k1'' ?S = Ok cat"
    "getMedicalRecords ''k1'' ?S = Ok [rec1]"
    "\<exists>p'. fst (updatePatient ''k1'' bob_payload ?S) = Ok p'"
    "\<exists>p'. fst (addMedicalRecord ''k1'' rec2 ?S) = Ok p'"
    "\<exists>p'. fst (updateMedicalRecord ''k1'' ''r1'' rec2 ?S) = Ok p'"
    "\<exists>p'. fst (deleteMedicalRecord ''k1'' ''r1'' ?S) = Ok p'"
    "\<exists>p'. fst (admitPatient ''k1'' 5 ?S) = Ok p'"
    by simp_all
  from t2 g2 have 2:
    "getPatient ''k2'' ?S = Err ''Patient with id=k2 not found''"
    "admitPatient ''k2'' 5 ?S = (Err ''Patient with id=k2 not found'', ?S)"
    "addMedicalRecord ''k2'' rec2 ?S = (Err ''Patient with id=k2 does not exist'', ?S)"
    by simp_all
  from n 1 2 show ?thesis by (intro conjI)
qed

section \<open>Admission and discharge\<close>

text \<open>
  C3. In every reachable store and for every patient \<open>p\<close> stored in it: if \<open>p\<close> is not
  admitted, \<^verbatim>\<open>admitPatient\<close> on its id succeeds, the stored patient is then admitted and has
  \<^verbatim>\<open>admittedAt\<close> present, a second \<^verbatim>\<open>admitPatient\<close> right after returns the error
  \<^verbatim>\<open>already admitted\<close>, and \<^verbatim>\<open>dischargePatient\<close> on \<open>p\<close> returns the error
  \<^verbatim>\<open>not currently admitted\<close>; if \<open>p\<close> is admitted, \<^verbatim>\<open>dischargePatient\<close> succeeds and the
  stored patient is then not admitted and has \<^verbatim>\<open>dischargedAt\<close> present.
\<close>

theorem admission_state_machine:
  assumes "reachable s" and "p \<in> set (store_values s)"
  shows "(\<not> isAdmitted p \<longrightarrow>
            (\<exists>p1. fst (admitPatient (patient_id p) t1 s) = Ok p1
                \<and> store_get (snd (admitPatient (patient_id p) t1 s)) (patient_id p) = Some p1
                \<and> isAdmitted p1 \<and> admittedAt p1 \<noteq> None
                \<and> fst (admitPatient (patient_id p) t2 (snd (admitPatient (patient_id p) t1 s)))
                    = Err (''Patient with id='' @ patient_id p @ '' is already admitted''))
            \<and> fst (dischargePatient (patient_id p) t1 s)
                = Err (''Patient with id='' @ patient_id p @ '' is not currently admitted''))
       \<and> (isAdmitted p \<longrightarrow>
            (\<exists>p1. fst (dischargePatient (patient_id p) t1 s) = Ok p1
                \<and> store_get (snd (dischargePatient (patient_id p) t1 s)) (patient_id p) = Some p1
                \<and> \<not> isAdmitted p1 \<and> dischargedAt p1 \<noteq> None))"
proof -
  let ?i = "patient_id p"
  from assms have g: "store_get s ?i = Some p" and ne: "?i \<noteq> []"
    by (rule reachable_stored)+
  have A: ?thesis if na: "\<not> isAdmitted p"
  proof -
    let ?p1 = "p\<lparr>isAdmitted := True, admittedAt := Some t1\<rparr>"
    let ?s1 = "store_insert ?i ?p1 s"
    have a1: "admitPatient ?i t1 s = (Ok ?p1, ?s1)"
      using ne g na by (rule admitPatient_new)
    have g1: "store_get ?s1 ?i = Some ?p1"
      by (simp add: store_get_insert)
    have a2: "admitPatient ?i t2 ?s1 = (Err (''Patient with id='' @ ?i @ '' is already admitted''), ?s1)"
      using ne g1 by (rule admitPatient_already) simp
    have d: "dischargePatient ?i t1 s
               = (Err (''Patient with id='' @ ?i @ '' is not currently admitted''), s)"
      using ne g na by (rule dischargePatient_not_admitted)
    show ?thesis using na a1 g1 a2 d by simp
  qed
  have B: ?thesis if a: "isAdmitted p"
  proof -
    let ?p1 = "p\<lparr>isAdmitted := False, dischargedAt := Some t1\<rparr>"
    have d: "dischargePatient ?i t1 s = (Ok ?p1, store_insert ?i ?p1 s)"
      using ne g a by (rule dischargePatient_admitted)
    show ?thesis using a d by (simp add: store_get_insert)
  qed
  from A B show ?thesis by blast
qed

theorem admission_state_machine_witness:
  "reachable [(ann_id, ann)] \<and> ann \<in> set (store_values [(ann_id, ann)]) \<and> \<not> isAdmitted ann
   \<and> (\<exists>p1. fst (admitPatient ann_id 5 [(ann_id, ann)]) = Ok p1
         \<and> store_get (snd (admitPatient ann_id 5 [(ann_id, ann)])) ann_id = Some p1
         \<and> isAdmitted p1 \<and> admittedAt p1 \<noteq> None
         \<and> fst (admitPatient ann_id 6 (snd (admitPatient ann_id 5 [(ann_id, ann)])))
              = Err (''Patient with id='' @ ann_id @ '' is already admitted''))
   \<and> fst (dischargePatient ann_id 5 [(ann_id, ann)])
        = Err (''Patient with id='' @ ann_id @ '' is not currently admitted'')
   \<and> reachable [(ann_id, ann_admitted)]
   \<and> ann_admitted \<in> set (store_values [(ann_id, ann_admitted)]) \<and> isAdmitted ann_admitted
   \<and> (\<exists>p1. fst (dischargePatient ann_id 7 [(ann_id, ann_admitted)]) = Ok p1
         \<and> store_get (snd (dischargePatient ann_id 7 [(ann_id, ann_admitted)])) ann_id = Some p1
         \<and> \<not> isAdmitted p1 \<and> dischargedAt p1 \<noteq> None)"
proof -
  have v: "ann \<in> set (store_values [(ann_id, ann)])"
    by (simp add: store_values_def)
  have i: "patient_id ann = ann_id" "\<not> isAdmitted ann"
    by (simp_all add: ann_def)
  have v': "ann_admitted \<in> set (store_values [(ann_id, ann_admitted)])"
    by (simp add: store_values_def)
  have i': "patient_id ann_admitted = ann_id" "isAdmitted ann_admitted"
    by (simp_all add: ann_admitted_def ann_def)
  show ?thesis
    using admission_state_machine[OF reachable_ann v, of 5 6]
      admission_state_machine[OF reachable_ann_admitted v', of 7 8]
      reachable_ann reachable_ann_admitted v i v' i'
    by simp
qed

text \<open>
  C4. In every store reachable from the empty store by calls of the exported operations,
  every stored patient with \<^verbatim>\<open>isAdmitted\<close> true has \<^verbatim>\<open>admittedAt\<close> present; and every
  operation, run on any store with that property, gives a store with that property.
\<close>

theorem admitted_patients_have_admittedAt:
  "(reachable s \<longrightarrow> admitted_inv s) \<and> (admitted_inv s \<longrightarrow> admitted_inv (run c s))"
  using reachable_invs admitted_inv_run by blast

theorem admitted_patients_have_admittedAt_witness:
  "reachable [(ann_id, ann_admitted)]
   \<and> admitted_inv [(ann_id, ann_admitted)]
   \<and> admitted_inv (run (UpdatePatient ann_id bob_payload) [(ann_id, ann_admitted)])"
  using admitted_patients_have_admittedAt
    [of "[(ann_id, ann_admitted)]" "UpdatePatient ann_id bob_payload"] reachable_ann_admitted
  by simp


section \<open>Patients and their records\<close>

text \<open>
  C5. If \<^verbatim>\<open>addPatient\<close> succeeds with a patient \<open>x\<close>, then \<^verbatim>\<open>getPatient\<close> on the id of
  \<open>x\<close>, right after, returns \<open>x\<close> as its success value; the id of \<open>x\<close> is the generated
  id, \<open>x\<close> is not admitted, both of its timestamps are absent, and its name, age, gender and
  medical records are those of the payload. The generated id is a UUID string; all that the
  statement needs of it is that it is not empty. (\<^verbatim>\<open>addPatient\<close> succeeds exactly for the
  payloads with a non-empty name, a truthy age and a non-empty gender.)
\<close>

theorem addPatient_then_getPatient:
  assumes "newId \<noteq> []" and "addPatient pl newId s = (Ok x, s')"
  shows "getPatient (patient_id x) s' = Ok x
         \<and> patient_id x = newId \<and> \<not> isAdmitted x
         \<and> admittedAt x = None \<and> dischargedAt x = None
         \<and> name x = payload_name pl \<and> age x = payload_age pl
         \<and> gender x = payload_gender pl
         \<and> medicalRecords x = payload_medicalRecords pl"
proof -
  note ok = addPatient_Ok[OF assms(2)]
  have id: "patient_id x = newId" by (simp add: ok(1))
  have "store_get s' newId = Some x"
    by (simp add: ok(2) store_get_insert)
  with assms(1) have "getPatient (patient_id x) s' = Ok x"
    by (simp add: getPatient_def truthy_string_def id)
  then show ?thesis by (simp add: ok(1))
qed

theorem addPatient_then_getPatient_witness:
  "ann_id \<noteq> [] \<and> addPatient ann_payload ann_id [(bob_id, bob)] = (Ok ann, [(bob_id, bob), (ann_id, ann)])
   \<and> getPatient (patient_id ann) [(bob_id, bob), (ann_id, ann)] = Ok ann
   \<and> patient_id ann = ann_id \<and> \<not> isAdmitted ann
   \<and> admittedAt ann = None \<and> dischargedAt ann = None
   \<and> name ann = payload_name ann_payload \<and> age ann = payload_age ann_payload
   \<and> gender ann = payload_gender ann_payload
   \<and> medicalRecords ann = payload_medicalRecords ann_payload"
proof -
  note ne = ann_id_nonempty
  have a: "addPatient ann_payload ann_id [(bob_id, bob)] = (Ok ann, [(bob_id, bob), (ann_id, ann)])"
    by (simp add: addPatient_def Let_def ann_payload_def ann_def truthy_string_def
        store_insert_def ann_id_def bob_id_def)
  have i: "patient_id ann = ann_id" by (simp add: ann_def)
  show ?thesis
    using addPatient_then_getPatient[OF ne a] ne a by (simp add: i)
qed

text \<open>
  C6. For a patient stored under the key \<open>i\<close>, a successful \<^verbatim>\<open>updatePatient\<close> stores under
  \<open>i\<close> the patient it returns: its id, \<^verbatim>\<open>isAdmitted\<close>, \<^verbatim>\<open>admittedAt\<close> and
  \<^verbatim>\<open>dischargedAt\<close> are those of the patient stored before, and its name, age, gender and
  whole sequence of medical records are those of the payload.
\<close>

theorem updatePatient_overwrites_payload_fields:
  assumes "store_get s i = Some old" and "updatePatient i pl s = (Ok new, s')"
  shows "store_get s' i = Some new
         \<and> patient_id new = patient_id old \<and> isAdmitted new = isAdmitted old
         \<and> admittedAt new = admittedAt old \<and> dischargedAt new = dischargedAt old
         \<and> name new = payload_name pl \<and> age new = payload_age pl
         \<and> gender new = payload_gender pl
         \<and> medicalRecords new = payload_medicalRecords pl"
proof -
  from updatePatient_Ok[OF assms(2)] assms(1)
  have new: "new = old\<lparr> name := payload_name pl, age := payload_age pl,
                        gender := payload_gender pl,
                        medicalRecords := payload_medicalRecords pl \<rparr>"
    and s': "s' = store_insert i new s"
    by auto
  have "store_get s' i = Some new" by (simp add: s' store_get_insert)
  then show ?thesis by (simp add: new)
qed

theorem updatePatient_overwrites_payload_fields_witness:
  "store_get [(ann_id, ann_admitted)] ann_id = Some ann_admitted
   \<and> updatePatient ann_id bob_payload [(ann_id, ann_admitted)]
       = (Ok ann_updated, [(ann_id, ann_updated)])
   \<and> store_get [(ann_id, ann_updated)] ann_id = Some ann_updated
   \<and> patient_id ann_updated = patient_id ann_admitted
   \<and> isAdmitted ann_updated = isAdmitted ann_admitted
   \<and> admittedAt ann_updated = admittedAt ann_admitted
   \<and> dischargedAt ann_updated = dischargedAt ann_admitted
   \<and> name ann_updated = ''Bob'' \<and> age ann_updated = Finite 41 \<and> gender ann_updated = ''M''
   \<and> medicalRecords ann_updated = [rec1, rec2, rec1b]"
proof -
  have g: "store_get [(ann_id, ann_admitted)] ann_id = Some ann_admitted"
    by (simp add: store_get_def)
  have u: "updatePatient ann_id bob_payload [(ann_id, ann_admitted)]
             = (Ok ann_updated, [(ann_id, ann_updated)])"
    using ann_id_nonempty
    by (simp add: updatePatient_def Let_def store_get_def truthy_string_def bob_payload_def
        ann_updated_def ann_admitted_def ann_def store_insert_def)
  show ?thesis
    using updatePatient_overwrites_payload_fields[OF g u] g u
    by (simp add: bob_payload_def)
qed

text \<open>
  C9. For a patient stored under \<open>pid\<close>, a successful \<^verbatim>\<open>addMedicalRecord\<close> with the record
  \<open>r\<close> stores the patient with the previous records followed by \<open>r\<close>, and
  \<^verbatim>\<open>getMedicalRecords\<close> right after returns that sequence: its last element is \<open>r\<close> and the
  rest is the previous sequence.
\<close>

theorem addMedicalRecord_appends:
  assumes "store_get s pid = Some p" and "addMedicalRecord pid r s = (Ok p', s')"
  shows "store_get s' pid = Some p'
         \<and> medicalRecords p' = medicalRecords p @ [r]
         \<and> getMedicalRecords pid s' = Ok (medicalRecords p @ [r])
         \<and> last (medicalRecords p @ [r]) = r
         \<and> butlast (medicalRecords p @ [r]) = medicalRecords p"
proof -
  from addMedicalRecord_Ok[OF assms(2)] assms(1)
  have ne: "pid \<noteq> []" and p': "p' = p\<lparr> medicalRecords := medicalRecords p @ [r] \<rparr>"
    and s': "s' = store_insert pid p' s"
    by auto
  have g: "store_get s' pid = Some p'" by (simp add: s' store_get_insert)
  have "getMedicalRecords pid s' = Ok (medicalRecords p')"
    using ne g by (simp add: getMedicalRecords_def truthy_string_def)
  with g show ?thesis by (simp add: p')
qed

theorem addMedicalRecord_appends_witness:
  "store_get [(bob_id, bob)] bob_id = Some bob
   \<and> addMedicalRecord bob_id rec_new [(bob_id, bob)] = (Ok bob_added, [(bob_id, bob_added)])
   \<and> store_get [(bob_id, bob_added)] bob_id = Some bob_added
   \<and> medicalRecords bob_added = medicalRecords bob @ [rec_new]
   \<and> getMedicalRecords bob_id [(bob_id, bob_added)] = Ok [rec1, rec2, rec1b, rec_new]"
proof -
  have g: "store_get [(bob_id, bob)] bob_id = Some bob"
    by (simp add: store_get_def)
  have a: "addMedicalRecord bob_id rec_new [(bob_id, bob)] = (Ok bob_added, [(bob_id, bob_added)])"
    using bob_id_nonempty
    by (simp add: addMedicalRecord_def Let_def store_get_def truthy_string_def
        bob_added_def bob_def store_insert_def)
  have m: "medicalRecords bob = [rec1, rec2, rec1b]" by (simp add: bob_def)
  show ?thesis
    using addMedicalRecord_appends[OF g a] g a m by simp
qed

text \<open>
  C7. The claim is stated for every record id. The source first rejects an empty record id
  (\<^verbatim>\<open>!medicalRecordId\<close>), whatever the records of the patient are, so the claim holds for
  the record ids that are not empty: for a patient stored in a reachable store and a
  non-empty \<open>rid\<close>, if some record of the patient has the id \<open>rid\<close> then, with \<open>i\<close> the first
  position of such a record, \<^verbatim>\<open>updateMedicalRecord\<close> stores and returns the patient with
  the record at \<open>i\<close> replaced by the new one (same length, every other position as before)
  and \<^verbatim>\<open>deleteMedicalRecord\<close> stores and returns the patient with the record at \<open>i\<close>
  removed (the others in their order); if no record has the id \<open>rid\<close>, both return the
  error that the record was not found, with the store as it was.
\<close>

theorem medical_record_first_match:
  assumes "reachable s" and "store_get s pid = Some p" and "rid \<noteq> []"
  shows "if \<exists>r\<in>set (medicalRecords p). record_id r = rid
         then (\<exists>i recs'.
                 i < length (medicalRecords p) \<and> record_id (medicalRecords p ! i) = rid
                 \<and> (\<forall>j<i. record_id (medicalRecords p ! j) \<noteq> rid)
                 \<and> updateMedicalRecord pid rid new s
                     = (Ok (p\<lparr>medicalRecords := recs'\<rparr>),
                        store_insert pid (p\<lparr>medicalRecords := recs'\<rparr>) s)
                 \<and> length recs' = length (medicalRecords p) \<and> recs' ! i = new
                 \<and> (\<forall>j<length (medicalRecords p). j \<noteq> i \<longrightarrow> recs' ! j = medicalRecords p ! j)
                 \<and> deleteMedicalRecord pid rid s
                     = (Ok (p\<lparr>medicalRecords :=
                              take i (medicalRecords p) @ drop (Suc i) (medicalRecords p)\<rparr>),
                        store_insert pid
                          (p\<lparr>medicalRecords :=
                              take i (medicalRecords p) @ drop (Suc i) (medicalRecords p)\<rparr>) s))
         else updateMedicalRecord pid rid new s
                = (Err (''Medical record with id='' @ rid @ '' not found for patient with id=''
                        @ pid), s)
              \<and> deleteMedicalRecord pid rid s
                = (Err (''Medical record with id='' @ rid @ '' not found for patient with id=''
                        @ pid), s)"
proof (cases "\<exists>r\<in>set (medicalRecords p). record_id r = rid")
  case True
  let ?P = "\<lambda>r. record_id r = rid"
  let ?recs = "medicalRecords p"
  let ?i = "firstIndex ?P ?recs"
  have ne: "pid \<noteq> []" using assms(1,2) by (rule reachable_key_nonempty)
  have lt: "?i < length ?recs" using True by (rule firstIndex_less)
  have at: "record_id (?recs ! ?i) = rid" using firstIndex_holds[of ?recs ?P] True by simp
  have first: "\<forall>j<?i. record_id (?recs ! j) \<noteq> rid"
    using firstIndex_first[of _ ?P ?recs] by simp
  have u: "updateMedicalRecord pid rid new s
             = (Ok (p\<lparr>medicalRecords := ?recs[?i := new]\<rparr>),
                store_insert pid (p\<lparr>medicalRecords := ?recs[?i := new]\<rparr>) s)"
    using ne assms(3,2) True by (rule updateMedicalRecord_found)
  have d: "deleteMedicalRecord pid rid s
             = (Ok (p\<lparr>medicalRecords := take ?i ?recs @ drop (Suc ?i) ?recs\<rparr>),
                store_insert pid (p\<lparr>medicalRecords := take ?i ?recs @ drop (Suc ?i) ?recs\<rparr>) s)"
    using ne assms(3,2) True by (rule deleteMedicalRecord_found)
  have l: "length (?recs[?i := new]) = length ?recs" by simp
  have n: "(?recs[?i := new]) ! ?i = new" using lt by simp
  have o: "\<forall>j<length ?recs. j \<noteq> ?i \<longrightarrow> (?recs[?i := new]) ! j = ?recs ! j" by simp
  have "\<exists>i recs'.
          i < length ?recs \<and> record_id (?recs ! i) = rid
          \<and> (\<forall>j<i. record_id (?recs ! j) \<noteq> rid)
          \<and> updateMedicalRecord pid rid new s
              = (Ok (p\<lparr>medicalRecords := recs'\<rparr>), store_insert pid (p\<lparr>medicalRecords := recs'\<rparr>) s)
          \<and> length recs' = length ?recs \<and> recs' ! i = new
          \<and> (\<forall>j<length ?recs. j \<noteq> i \<longrightarrow> recs' ! j = ?recs ! j)
          \<and> deleteMedicalRecord pid rid s
              = (Ok (p\<lparr>medicalRecords := take i ?recs @ drop (Suc i) ?recs\<rparr>),
                 store_insert pid (p\<lparr>medicalRecords := take i ?recs @ drop (Suc i) ?recs\<rparr>) s)"
    using lt at first u l n o d by blast
  with True show ?thesis by simp
next
  case False
  have ne: "pid \<noteq> []" using assms(1,2) by (rule reachable_key_nonempty)
  from medicalRecord_not_found[OF ne assms(3,2) False] False show ?thesis by simp
qed

text \<open>
  C7 as it is stated fails for the empty record id. A patient added with one record whose
  id is the empty string has a record that matches the empty id, yet
  \<^verbatim>\<open>updateMedicalRecord\<close> and \<^verbatim>\<open>deleteMedicalRecord\<close> with that id return the invalid-id
  error and leave the store as it was; and for a patient without records, where nothing
  matches, the error they return is not the record-not-found error.
\<close>

theorem medical_record_empty_id_counterexample:
  "reachable [(ann_id, ann_noid)]
   \<and> store_get [(ann_id, ann_noid)] ann_id = Some ann_noid
   \<and> medicalRecords ann_noid = [rec_noid] \<and> record_id rec_noid = []
   \<and> updateMedicalRecord ann_id [] rec_new [(ann_id, ann_noid)]
       = (Err ''Invalid patient or medical record ID for updating a medical record.'',
          [(ann_id, ann_noid)])
   \<and> deleteMedicalRecord ann_id [] [(ann_id, ann_noid)]
       = (Err ''Invalid patient or medical record ID for deleting a medical record.'',
          [(ann_id, ann_noid)])
   \<and> store_get [(ann_id, ann)] ann_id = Some ann \<and> medicalRecords ann = []
   \<and> fst (updateMedicalRecord ann_id [] rec_new [(ann_id, ann)])
       \<noteq> Err (''Medical record with id='' @ [] @ '' not found for patient with id='' @ ann_id)
   \<and> fst (deleteMedicalRecord ann_id [] [(ann_id, ann)])
       \<noteq> Err (''Medical record with id='' @ [] @ '' not found for patient with id='' @ ann_id)"
  using reachable_ann_noid
  by (simp add: store_get_def ann_noid_def ann_def rec_noid_def updateMedicalRecord_def
      deleteMedicalRecord_def truthy_string_def)

theorem medical_record_first_match_witness:
  "reachable [(bob_id, bob)] \<and> store_get [(bob_id, bob)] bob_id = Some bob \<and> ''r1'' \<noteq> []
   \<and> medicalRecords bob = [rec1, rec2, rec1b]
   \<and> record_id rec1 = ''r1'' \<and> record_id rec1b = ''r1''
   \<and> updateMedicalRecord bob_id ''r1'' rec_new [(bob_id, bob)]
        = (Ok bob_replaced, [(bob_id, bob_replaced)])
   \<and> medicalRecords bob_replaced = [rec_new, rec2, rec1b]
   \<and> deleteMedicalRecord bob_id ''r1'' [(bob_id, bob)]
        = (Ok bob_removed, [(bob_id, bob_removed)])
   \<and> medicalRecords bob_removed = [rec2, rec1b]
   \<and> updateMedicalRecord bob_id ''r7'' rec_new [(bob_id, bob)]
        = (Err (''Medical record with id=r7 not found for patient with id='' @ bob_id),
           [(bob_id, bob)])
   \<and> deleteMedicalRecord bob_id ''r7'' [(bob_id, bob)]
        = (Err (''Medical record with id=r7 not found for patient with id='' @ bob_id),
           [(bob_id, bob)])"
proof -
  have g: "store_get [(bob_id, bob)] bob_id = Some bob"
    by (simp add: store_get_def)
  have ne: "''r1'' \<noteq> []" "''r7'' \<noteq> []" by simp_all
  have m: "medicalRecords bob = [rec1, rec2, rec1b]" by (simp add: bob_def)
  have ids: "record_id rec1 = ''r1''" "record_id rec2 = ''r2''" "record_id rec1b = ''r1''"
    by (simp_all add: rec1_def rec2_def rec1b_def)
  have no: "\<not> (\<exists>r\<in>set (medicalRecords bob). record_id r = ''r7'')"
    by (simp add: m ids)
  have yes: "\<exists>r\<in>set (medicalRecords bob). record_id r = ''r1''"
    by (simp add: m ids)
  from medical_record_first_match[OF reachable_bob g ne(1), of rec_new] yes
  obtain i recs' where
    i: "i < length (medicalRecords bob)" "record_id (medicalRecords bob ! i) = ''r1''"
       "\<forall>j<i. record_id (medicalRecords bob ! j) \<noteq> ''r1''"
    and u: "updateMedicalRecord bob_id ''r1'' rec_new [(bob_id, bob)]
              = (Ok (bob\<lparr>medicalRecords := recs'\<rparr>),
                 store_insert bob_id (bob\<lparr>medicalRecords := recs'\<rparr>) [(bob_id, bob)])"
    and r: "length recs' = length (medicalRecords bob)" "recs' ! i = rec_new"
       "\<forall>j<length (medicalRecords bob). j \<noteq> i \<longrightarrow> recs' ! j = medicalRecords bob ! j"
    and d: "deleteMedicalRecord bob_id ''r1'' [(bob_id, bob)]
              = (Ok (bob\<lparr>medicalRecords :=
                         take i (medicalRecords bob) @ drop (Suc i) (medicalRecords bob)\<rparr>),
                 store_insert bob_id
                   (bob\<lparr>medicalRecords :=
                         take i (medicalRecords bob) @ drop (Suc i) (medicalRecords bob)\<rparr>)
                   [(bob_id, bob)])"
    by auto
  have i0: "i = 0"
  proof (rule ccontr)
    assume "i \<noteq> 0"
    then have "0 < i" by simp
    with i(3) have "record_id (medicalRecords bob ! 0) \<noteq> ''r1''" by blast
    then show False by (simp add: m ids)
  qed
  have recs': "recs' = [rec_new, rec2, rec1b]"
  proof -
    from r(1) have l: "length recs' = 3" by (simp add: m)
    from r(2) have 0: "recs' ! 0 = rec_new" by (simp add: i0)
    from r(3) have 1: "recs' ! 1 = rec2" by (simp add: i0 m)
    from r(3) have 2: "recs' ! 2 = rec1b" by (simp add: i0 m)
    from l 0 1 2 show ?thesis
      by (auto simp: length_Suc_conv numeral_3_eq_3)
  qed
  have U: "updateMedicalRecord bob_id ''r1'' rec_new [(bob_id, bob)]
             = (Ok bob_replaced, [(bob_id, bob_replaced)])"
    using u by (simp add: recs' bob_replaced_def store_insert_def)
  have D: "deleteMedicalRecord bob_id ''r1'' [(bob_id, bob)]
             = (Ok bob_removed, [(bob_id, bob_removed)])"
    using d by (simp add: i0 m bob_removed_def store_insert_def)
  have N: "updateMedicalRecord bob_id ''r7'' rec_new [(bob_id, bob)]
        = (Err (''Medical record with id=r7 not found for patient with id='' @ bob_id),
           [(bob_id, bob)])"
     "deleteMedicalRecord bob_id ''r7'' [(bob_id, bob)]
        = (Err (''Medical record with id=r7 not found for patient with id='' @ bob_id),
           [(bob_id, bob)])"
    using medical_record_first_match[OF reachable_bob g ne(2), of rec_new] no by simp_all
  show ?thesis
    using reachable_bob g m ids U D N
    by (simp add: bob_replaced_def bob_removed_def)
qed




section \<open>Searching\<close>




section \<open>What an operation leaves alone\<close>

text \<open>
  C10. For every call of an exported operation and every key other than the one the call
  operates on (its id argument, or the generated id for \<^verbatim>\<open>addPatient\<close>), the entry under
  that key is the same before and after the call; and the four read operations
  \<^verbatim>\<open>getPatient\<close>, \<^verbatim>\<open>getPatients\<close>, \<^verbatim>\<open>getMedicalRecords\<close> and \<^verbatim>\<open>searchPatients\<close> leave
  the whole store as it was.
\<close>

theorem operations_touch_only_their_key:
  "(\<forall>k. target c \<noteq> Some k \<longrightarrow> store_get (run c s) k = store_get s k)
   \<and> (is_query c \<longrightarrow> run c s = s)"
proof -
  have A: "store_get (run c s) k = store_get s k" if "target c \<noteq> Some k" for k
    using that
    by (cases c)
       (auto simp: op_defs snd_deletePatient Let_def store_get_insert store_get_remove
             split: option.splits)
  have B: "is_query c \<longrightarrow> run c s = s"
    by (cases c) simp_all
  from A B show ?thesis by blast
qed

theorem operations_touch_only_their_key_witness:
  "target (AdmitPatient ann_id 5) \<noteq> Some bob_id
   \<and> store_get (run (AdmitPatient ann_id 5) [(ann_id, ann), (bob_id, bob)]) bob_id = Some bob
   \<and> store_get (run (AdmitPatient ann_id 5) [(ann_id, ann), (bob_id, bob)]) ann_id
       = Some ann_admitted
   \<and> is_query (SearchPatients ''an'')
   \<and> run (SearchPatients ''an'') [(ann_id, ann), (bob_id, bob)] = [(ann_id, ann), (bob_id, bob)]"
proof -
  let ?S = "[(ann_id, ann), (bob_id, bob)]"
  have d: "ann_id \<noteq> bob_id" by (simp add: ann_id_def bob_id_def)
  have t: "target (AdmitPatient ann_id 5) \<noteq> Some bob_id"
    using d by simp
  have g: "store_get ?S bob_id = Some bob"
    using d by (simp add: store_get_def)
  have ga: "store_get ?S ann_id = Some ann"
    by (simp add: store_get_def)
  have na: "\<not> isAdmitted ann" by (simp add: ann_def)
  have a: "store_get (run (AdmitPatient ann_id 5) ?S) ann_id = Some ann_admitted"
    by (simp add: admitPatient_new[OF ann_id_nonempty ga na] store_get_insert ann_admitted_def)
  from operations_touch_only_their_key[of "AdmitPatient ann_id 5" ?S] t g
  have b: "store_get (run (AdmitPatient ann_id 5) ?S) bob_id = Some bob"
    by simp
  have q: "is_query (SearchPatients ''an'')" by simp
  from operations_touch_only_their_key[of "SearchPatients ''an''" ?S] q
  have r: "run (SearchPatients ''an'') ?S = ?S" by blast
  from t b a q r show ?thesis by blast
qed

end
